theory Spec2Isabelle
  imports Complex_Main "HOL-Library.Log_Nat"
begin

section \<open>JavaScript primitives used by the components\<close>

text \<open>
  A JavaScript number is modelled by the real number it stands for, and \<open>undefined\<close> is
  \<open>None\<close> of an option type. The arithmetic of the tracking marker's rotation is the
  arithmetic of binary64 floating point: every subtraction, addition and multiplication
  there is followed by the rounding \<open>fl\<close> defined below.
\<close>

text \<open>\<^verbatim>\<open>Math.sign(x)\<close>.\<close>

definition Math_sign :: "real \<Rightarrow> real" where
  "Math_sign x = (if x > 0 then 1 else if x < 0 then - 1 else 0)"

text \<open>\<^verbatim>\<open>Math.abs(x)\<close>.\<close>

definition Math_abs :: "real \<Rightarrow> real" where
  "Math_abs x = (if x < 0 then - x else x)"

text \<open>Rounding towards zero, as the quotient of the \<^verbatim>\<open>%\<close> operator is rounded.\<close>

definition trunc :: "real \<Rightarrow> int" where
  "trunc x = (if 0 \<le> x then \<lfloor>x\<rfloor> else - \<lfloor>- x\<rfloor>)"

text \<open>
  The \<^verbatim>\<open>%\<close> operator: the remainder takes the sign of the dividend. The divisor is
  the constant 360 wherever the source uses it. The remainder of two doubles is a double,
  so this operation does not round.
\<close>

definition js_rem :: "real \<Rightarrow> real \<Rightarrow> real" where
  "js_rem a n = a - n * of_int (trunc (a / n))"

subsection \<open>Rounding to binary64\<close>

text \<open>
  A finite double is an integer of magnitude below \<open>2^53\<close> times a power of two, whose
  exponent is at least \<open>-1074\<close>. The model keeps the value of a double: the two zeros
  are the one real 0, and \<^verbatim>\<open>NaN\<close> and the infinities are not values of it.
\<close>

text \<open>Rounding a real to the nearest integer, a tie going to the even one.\<close>

definition round_even :: "real \<Rightarrow> int" where
  "round_even y =
     (let f = \<lfloor>y\<rfloor>; d = y - of_int f
      in if d < 1 / 2 then f else if d > 1 / 2 then f + 1 else if even f then f else f + 1)"

text \<open>
  The binary exponent of a non-zero real: the \<open>e\<close> with \<open>2^e \<le> |x| < 2^(e+1)\<close>,
  computed from the bit length of the integer part of \<open>|x|\<close>, or of \<open>1 / |x|\<close> when
  \<open>|x| < 1\<close>.
\<close>

definition expo :: "real \<Rightarrow> int" where
  "expo x =
     (if 1 \<le> \<bar>x\<bar> then int (floorlog 2 (nat \<lfloor>\<bar>x\<bar>\<rfloor>)) - 1
      else - int (floorlog 2 (nat \<lceil>1 / \<bar>x\<bar>\<rceil> - 1)))"

text \<open>
  The exponent of the last place of the doubles around \<open>x\<close>: 52 below the exponent of
  \<open>x\<close>, and \<open>-1074\<close> in the subnormal range.
\<close>

definition quantum :: "real \<Rightarrow> int" where
  "quantum x = max (expo x - 52) (- 1074)"

text \<open>
  The double that a binary64 operation returns for the exact result \<open>x\<close>: the nearest
  multiple of the last place, a tie going to the even one. This is the rounding of
  results of magnitude below the overflow threshold \<open>2^1024\<close>; the rotations and
  headings of the marker stay far below it.
\<close>

definition fl :: "real \<Rightarrow> real" where
  "fl x = (if x = 0 then 0 else of_int (round_even (x / 2 powi quantum x)) * 2 powi quantum x)"

section \<open>TrackingMarker\<close>

record 'n coords =
  latitude :: 'n
  longitude :: 'n

text \<open>
  The component's state: the \<^verbatim>\<open>currentCoordinate\<close> state cell, the value held by the
  \<^verbatim>\<open>Animated.Value\<close> (\<^verbatim>\<open>rotation._value\<close>), and the \<^verbatim>\<open>rotationDeg\<close> and
  \<^verbatim>\<open>svgLoading\<close> state cells.
\<close>

record marker_state =
  currentCoordinate :: "real coords"
  rotation_value :: real
  rotationDeg :: real
  svgLoading :: bool

text \<open>The configuration handed to \<^verbatim>\<open>Animated.timing(rotation, ...)\<close>; the easing is linear.\<close>

record timing_config =
  toValue :: real
  duration :: real

text \<open>
  \<^verbatim>\<open>move(newLatitude, newLongitude, duration = moveDuration)\<close>: the optional argument is
  \<open>None\<close> when the caller leaves it out.
\<close>

definition move :: "real \<Rightarrow> real \<Rightarrow> real option \<Rightarrow> real \<Rightarrow> marker_state \<Rightarrow> marker_state" where
  "move newLatitude newLongitude duration_arg moveDuration s =
     (let d = (case duration_arg of None \<Rightarrow> moveDuration | Some d \<Rightarrow> d)
      in s\<lparr>currentCoordinate := \<lparr>latitude = newLatitude, longitude = newLongitude\<rparr>\<rparr>)"

text \<open>
  The signed delta of \<^verbatim>\<open>rotate\<close>, after its wrap step. The difference, the product
  \<^verbatim>\<open>360 * Math.sign(delta)\<close> and the wrapped difference are each rounded.
\<close>

definition rotate_delta :: "real \<Rightarrow> real \<Rightarrow> real" where
  "rotate_delta currentRotation newHeading =
     (let delta = fl (newHeading - currentRotation)
      in if Math_abs delta > 180 then fl (delta - fl (360 * Math_sign delta)) else delta)"

text \<open>
  \<^verbatim>\<open>rotate(newHeading, duration = rotationDuration)\<close>: the result is the animation it
  starts. \<^verbatim>\<open>rotation._value || 0\<close> replaces a falsy value by 0. The sum
  \<^verbatim>\<open>currentRotation + delta\<close> is rounded before the remainder is taken.
\<close>

definition rotate_marker :: "real \<Rightarrow> real option \<Rightarrow> real \<Rightarrow> marker_state \<Rightarrow> timing_config" where
  "rotate_marker newHeading duration_arg rotationDuration s =
     (let currentRotation = (if rotation_value s = 0 then 0 else rotation_value s);
          delta = rotate_delta currentRotation newHeading;
          finalRotation = js_rem (fl (currentRotation + delta)) 360
      in \<lparr>toValue = finalRotation,
          duration = (case duration_arg of None \<Rightarrow> rotationDuration | Some d \<Rightarrow> d)\<rparr>)"

section \<open>Arrays and strings\<close>

text \<open>\<^verbatim>\<open>xs[i]\<close>: reading an array past its end gives \<open>undefined\<close>.\<close>

definition at_index :: "'a list \<Rightarrow> nat \<Rightarrow> 'a option" where
  "at_index xs i = (if i < length xs then Some (xs ! i) else None)"

text \<open>
  \<^verbatim>\<open>xs.slice(start, end)\<close>: a negative index counts from the end of the array, and both
  indices are clamped to the array.
\<close>

definition slice :: "'a list \<Rightarrow> int \<Rightarrow> int \<Rightarrow> 'a list" where
  "slice xs start fin =
     (let len = int (length xs);
          k = (if start < 0 then max (len + start) 0 else min start len);
          final = (if fin < 0 then max (len + fin) 0 else min fin len)
      in take (nat (final - k)) (drop (nat k) xs))"

text \<open>\<^verbatim>\<open>xs.join(sep)\<close> on an array of strings.\<close>

fun join :: "string list \<Rightarrow> string \<Rightarrow> string" where
  "join [] sep = []"
| "join [x] sep = x"
| "join (x # y # ys) sep = x @ sep @ join (y # ys) sep"

text \<open>
  Modelled from the spec: the helpers \<^verbatim>\<open>first\<close> and \<^verbatim>\<open>last\<close> imported from
  \<^verbatim>\<open>../utils\<close> are not among the sources. They give the first and the last element of
  an array, and \<open>undefined\<close> on an empty one.
\<close>

definition first :: "'a list \<Rightarrow> 'a option" where
  "first xs = at_index xs 0"

definition last_util :: "'a list \<Rightarrow> 'a option" where
  "last_util xs = (if length xs = 0 then None else at_index xs (length xs - 1))"

text \<open>
  The value of \<^verbatim>\<open>Math.max\<close> and \<^verbatim>\<open>Math.min\<close>: a finite number, \<^verbatim>\<open>NaN\<close>, or an
  infinity. An argument that is \<open>undefined\<close> converts to \<^verbatim>\<open>NaN\<close>, and the result of
  no arguments at all is \<^verbatim>\<open>-Infinity\<close> for \<^verbatim>\<open>Math.max\<close> and \<^verbatim>\<open>Infinity\<close>
  for \<^verbatim>\<open>Math.min\<close>.
\<close>

datatype jsnum = Fin real | NaN | NegInfinity | PosInfinity

fun max_acc :: "jsnum \<Rightarrow> real option \<Rightarrow> jsnum" where
  "max_acc acc None = NaN"
| "max_acc NaN (Some x) = NaN"
| "max_acc NegInfinity (Some x) = Fin x"
| "max_acc PosInfinity (Some x) = PosInfinity"
| "max_acc (Fin a) (Some x) = Fin (max a x)"

fun min_acc :: "jsnum \<Rightarrow> real option \<Rightarrow> jsnum" where
  "min_acc acc None = NaN"
| "min_acc NaN (Some x) = NaN"
| "min_acc PosInfinity (Some x) = Fin x"
| "min_acc NegInfinity (Some x) = NegInfinity"
| "min_acc (Fin a) (Some x) = Fin (min a x)"

definition Math_max :: "real option list \<Rightarrow> jsnum" where
  "Math_max args = foldl max_acc NegInfinity args"

definition Math_min :: "real option list \<Rightarrow> jsnum" where
  "Math_min args = foldl min_acc PosInfinity args"

section \<open>PlaceMapView\<close>

definition calculateZoomLevel_PlaceMapView :: "real \<Rightarrow> real" where
  "calculateZoomLevel_PlaceMapView zoom = 15 - zoom"

text \<open>The props of the \<^verbatim>\<open>Camera\<close> element; the centre is a [longitude, latitude] pair.\<close>

record 'n camera_props =
  zoomLevel :: real
  camera_centerCoordinate :: "'n \<times> 'n"

text \<open>The argument of the imperative \<^verbatim>\<open>setCamera\<close> call.\<close>

record camera_stop =
  stop_centerCoordinate :: "real \<times> real"
  stop_zoomLevel :: real
  animationDuration :: real

text \<open>
  The camera that \<^verbatim>\<open>PlaceMapView\<close> renders. The \<^verbatim>\<open>zoom\<close> prop defaults to 1;
  \<open>coordinates\<close> is the [latitude, longitude] pair that \<^verbatim>\<open>getCoordinates(place)\<close>
  returns.
\<close>

definition PlaceMapView_camera :: "real option \<Rightarrow> 'n \<times> 'n \<Rightarrow> 'n camera_props" where
  "PlaceMapView_camera zoom_prop place_coordinates =
     (let zoom = (case zoom_prop of None \<Rightarrow> 1 | Some z \<Rightarrow> z);
          (lat, lng) = place_coordinates;
          zoomLevel = calculateZoomLevel_PlaceMapView zoom
      in \<lparr>zoomLevel = zoomLevel, camera_centerCoordinate = (lng, lat)\<rparr>)"

text \<open>
  The effect of \<^verbatim>\<open>PlaceMapView\<close> on a change of the place's coordinates: when the camera
  is mounted it is sent to the place at zoom level 16.
\<close>

definition PlaceMapView_effect :: "bool \<Rightarrow> real \<times> real \<Rightarrow> camera_stop option" where
  "PlaceMapView_effect cameraRef_current place_coordinates =
     (let (lat, lng) = place_coordinates
      in if cameraRef_current
         then Some \<lparr>stop_centerCoordinate = (lng, lat), stop_zoomLevel = 16, animationDuration = 500\<rparr>
         else None)"

section \<open>LiveOrderRoute\<close>

definition calculateZoomLevel_LiveOrderRoute :: "real \<Rightarrow> real" where
  "calculateZoomLevel_LiveOrderRoute zoom = 14 - zoom"

text \<open>
  \<^verbatim>\<open>getPlaceCoords\<close>. The function \<^verbatim>\<open>getCoordinates\<close> of \<^verbatim>\<open>../utils/location\<close> is not
  among the sources and is a parameter; it returns a [latitude, longitude] pair.
\<close>

definition getPlaceCoords :: "('p \<Rightarrow> 'n \<times> 'n) \<Rightarrow> 'p \<Rightarrow> 'n coords" where
  "getPlaceCoords getCoordinates place =
     (let (lat, lng) = getCoordinates place in \<lparr>latitude = lat, longitude = lng\<rparr>)"

text \<open>
  The camera that \<^verbatim>\<open>LiveOrderRoute\<close> renders. The \<^verbatim>\<open>zoom\<close> prop defaults to 1, and
  \<^verbatim>\<open>origin.longitude || 0\<close> replaces a missing (or zero) number by 0.
\<close>

definition or_zero :: "real option \<Rightarrow> real option" where
  "or_zero x = (case x of None \<Rightarrow> Some 0 | Some v \<Rightarrow> if v = 0 then Some 0 else Some v)"

definition LiveOrderRoute_camera :: "real option \<Rightarrow> real option coords \<Rightarrow> real option camera_props" where
  "LiveOrderRoute_camera zoom_prop origin =
     (let zoom = (case zoom_prop of None \<Rightarrow> 1 | Some z \<Rightarrow> z)
      in \<lparr>zoomLevel = calculateZoomLevel_LiveOrderRoute zoom,
          camera_centerCoordinate = (or_zero (longitude origin), or_zero (latitude origin))\<rparr>)"

subsection \<open>fetchDirections\<close>

text \<open>
  A middle waypoint as \<^verbatim>\<open>LiveOrderRoute\<close> hands it to \<^verbatim>\<open>fetchDirections\<close>: the
  waypoint object with a \<^verbatim>\<open>coordinate\<close> property.
\<close>

record ('n, 'w) middle_waypoint =
  coordinate :: "'n coords"
  waypoint :: 'w

text \<open>
  The coordinate list of the request. \<open>str\<close> is the conversion of a coordinate value to
  a string that the template literal performs.
\<close>

definition request_coordinates ::
  "('n \<Rightarrow> string) \<Rightarrow> 'n coords \<Rightarrow> 'n coords \<Rightarrow> ('n, 'w) middle_waypoint list \<Rightarrow> string" where
  "request_coordinates str origin destination waypoints =
     join ([str (longitude origin) @ '','' @ str (latitude origin)]
           @ map (\<lambda>wp. str (longitude (coordinate wp)) @ '','' @ str (latitude (coordinate wp))) waypoints
           @ [str (longitude destination) @ '','' @ str (latitude destination)]) '';''"

text \<open>The request URL; \<open>token\<close> is \<^verbatim>\<open>Config.MAPBOX_ACCESS_TOKEN\<close> as a string.\<close>

definition directions_url ::
  "('n \<Rightarrow> string) \<Rightarrow> string \<Rightarrow> 'n coords \<Rightarrow> 'n coords \<Rightarrow> ('n, 'w) middle_waypoint list \<Rightarrow> string" where
  "directions_url str token origin destination waypoints =
     ''https://api.mapbox.com/directions/v5/mapbox/driving/''
     @ request_coordinates str origin destination waypoints
     @ ''?geometries=geojson&access_token='' @ token"

text \<open>
  The parsed response of the directions service: an object that may have a \<^verbatim>\<open>routes\<close>
  array of routes, each with its GeoJSON \<^verbatim>\<open>geometry\<close>, whose \<^verbatim>\<open>coordinates\<close> are
  arrays of numbers.
\<close>

record geometry =
  coordinates :: "real list list option"

record route =
  geometry :: geometry

record directions_data =
  routes :: "route list option"

text \<open>
  What \<^verbatim>\<open>fetch(url)\<close> and \<^verbatim>\<open>response.json()\<close> reject with, and the error of
  reading a property of \<open>undefined\<close>.
\<close>

datatype js_error = FetchError | JsonError | TypeError

text \<open>
  The URL that \<^verbatim>\<open>fetchDirections(origin, destination, waypoints = [])\<close> requests; a
  waypoint list left out is the empty list.
\<close>

definition fetchDirections_url ::
  "('n \<Rightarrow> string) \<Rightarrow> string \<Rightarrow> 'n coords \<Rightarrow> 'n coords \<Rightarrow> ('n, 'w) middle_waypoint list option \<Rightarrow> string" where
  "fetchDirections_url str token origin destination waypoints_arg =
     (let waypoints = (case waypoints_arg of None \<Rightarrow> [] | Some ws \<Rightarrow> ws)
      in directions_url str token origin destination waypoints)"

text \<open>
  \<^verbatim>\<open>fetchDirections(origin, destination, waypoints = [])\<close>. The network is a parameter:
  \<open>fetch\<close> answers a URL with a response or rejects, \<open>json\<close> parses a response or
  rejects. A result \<open>Inl e\<close> is the function throwing \<open>e\<close> (its promise rejecting),
  \<open>Inr None\<close> is the value \<^verbatim>\<open>null\<close>. Inside the \<^verbatim>\<open>try\<close> block, \<open>Inr (Some g)\<close>
  is \<^verbatim>\<open>return g\<close> and \<open>Inr None\<close> is reaching the end of the block; the \<^verbatim>\<open>catch\<close>
  clause logs the error and goes on to \<^verbatim>\<open>return null\<close>.
\<close>

definition fetchDirections ::
  "(string \<Rightarrow> js_error + 'r) \<Rightarrow> ('r \<Rightarrow> js_error + directions_data) \<Rightarrow> ('n \<Rightarrow> string) \<Rightarrow> string
    \<Rightarrow> 'n coords \<Rightarrow> 'n coords \<Rightarrow> ('n, 'w) middle_waypoint list option \<Rightarrow> js_error + geometry option" where
  "fetchDirections fetch json str token origin destination waypoints_arg =
     (let url = fetchDirections_url str token origin destination waypoints_arg;
          try_block =
            (case fetch url of
               Inl e \<Rightarrow> Inl e
             | Inr response \<Rightarrow>
                 (case json response of
                    Inl e \<Rightarrow> Inl e
                  | Inr data \<Rightarrow>
                      (case routes data of
                         None \<Rightarrow> Inr None
                       | Some rs \<Rightarrow>
                           if length rs > 0
                           then (case at_index rs 0 of
                                   None \<Rightarrow> Inl TypeError
                                 | Some r \<Rightarrow> Inr (Some (geometry r)))
                           else Inr None)))
      in case try_block of
           Inr (Some g) \<Rightarrow> Inr (Some g)
         | Inr None \<Rightarrow> Inr None
         | Inl error \<Rightarrow> Inr None)"

subsection \<open>Start, end and middle waypoints\<close>

text \<open>
  Places are objects: a value of type \<open>'p\<close> is a reference to one, and equality on \<open>'p\<close>
  is the identity that \<^verbatim>\<open>!==\<close> compares. A missing pickup or dropoff is \<open>None\<close>.
\<close>

definition startWaypoint :: "'p option \<Rightarrow> 'p list \<Rightarrow> 'p option" where
  "startWaypoint pickup waypoints =
     (if pickup = None \<and> length waypoints > 0 then at_index waypoints 0 else pickup)"

definition endWaypoint :: "'p option \<Rightarrow> 'p list \<Rightarrow> 'p option" where
  "endWaypoint dropoff waypoints =
     (if dropoff = None \<and> length waypoints > 0 \<and> last_util waypoints \<noteq> first waypoints
      then last_util waypoints else dropoff)"

text \<open>
  The places the route runs between. \<open>driverLocation\<close> is the value of
  \<^verbatim>\<open>getDriverLocationAsPlace()\<close>, \<open>currentDestination\<close> the memoised current destination,
  and \<open>restoreFleetbasePlace\<close> the function of that name with its adapter; none of them
  is among the sources.
\<close>

definition route_start :: "bool \<Rightarrow> 'q \<Rightarrow> ('p option \<Rightarrow> 'q) \<Rightarrow> 'p option \<Rightarrow> 'p list \<Rightarrow> 'q" where
  "route_start focusCurrentDestination driverLocation restoreFleetbasePlace pickup waypoints =
     (if focusCurrentDestination then driverLocation
      else restoreFleetbasePlace (startWaypoint pickup waypoints))"

definition route_end :: "bool \<Rightarrow> 'q \<Rightarrow> ('p option \<Rightarrow> 'q) \<Rightarrow> 'p option \<Rightarrow> 'p list \<Rightarrow> 'q" where
  "route_end focusCurrentDestination currentDestination restoreFleetbasePlace dropoff waypoints =
     (if focusCurrentDestination then currentDestination
      else restoreFleetbasePlace (endWaypoint dropoff waypoints))"

text \<open>
  \<^verbatim>\<open>{ coordinate: getPlaceCoords(waypoint), ...waypoint }\<close>: the spread comes second, so
  a \<^verbatim>\<open>coordinate\<close> property of the waypoint's own (\<open>own_coordinate\<close>) wins over the
  computed one.
\<close>

definition with_coordinate ::
  "('p \<Rightarrow> 'n \<times> 'n) \<Rightarrow> ('p \<Rightarrow> 'n coords option) \<Rightarrow> 'p \<Rightarrow> ('n, 'p) middle_waypoint" where
  "with_coordinate getCoordinates own_coordinate wp =
     \<lparr>coordinate = (case own_coordinate wp of None \<Rightarrow> getPlaceCoords getCoordinates wp | Some c \<Rightarrow> c),
      waypoint = wp\<rparr>"

definition middleWaypoints ::
  "bool \<Rightarrow> ('p \<Rightarrow> 'n \<times> 'n) \<Rightarrow> ('p \<Rightarrow> 'n coords option) \<Rightarrow> 'p list \<Rightarrow> ('n, 'p) middle_waypoint list" where
  "middleWaypoints focusCurrentDestination getCoordinates own_coordinate waypoints =
     (if focusCurrentDestination then []
      else map (with_coordinate getCoordinates own_coordinate) (slice waypoints 1 (- 1)))"

datatype marker_size = XXS | XS | SM | MD | LG

text \<open>The \<^verbatim>\<open>markerSize\<close> prop defaults to \<^verbatim>\<open>'sm'\<close>.\<close>

definition finalMarkerSize :: "'a list \<Rightarrow> marker_size option \<Rightarrow> marker_size" where
  "finalMarkerSize middle markerSize_prop =
     (let markerSize = (case markerSize_prop of None \<Rightarrow> SM | Some m \<Rightarrow> m)
      in if length middle > 0 then (if length middle > 3 then XXS else XS) else markerSize)"

subsection \<open>Fitting the camera to the route\<close>

record bounds =
  ne :: "jsnum \<times> jsnum"
  sw :: "jsnum \<times> jsnum"

definition route_bounds :: "real list list \<Rightarrow> bounds" where
  "route_bounds cs =
     (let lngs = map (\<lambda>c. at_index c 0) cs;
          lats = map (\<lambda>c. at_index c 1) cs
      in \<lparr>ne = (Math_max lngs, Math_max lats), sw = (Math_min lngs, Math_min lats)\<rparr>)"

text \<open>The arguments of the \<^verbatim>\<open>fitBounds\<close> call.\<close>

record fit_call =
  fit_ne :: "jsnum \<times> jsnum"
  fit_sw :: "jsnum \<times> jsnum"
  fit_padding :: "real list"
  fit_duration :: real

text \<open>
  The effect that runs when \<^verbatim>\<open>routeGeometry\<close> changes: \<open>None\<close> when it calls nothing.
  \<open>cameraRef_current\<close> says whether the camera is mounted; the paddings are the four
  \<^verbatim>\<open>edgePadding\<close> props.
\<close>

definition fitBounds_effect ::
  "geometry option \<Rightarrow> bool \<Rightarrow> real \<Rightarrow> real \<Rightarrow> real \<Rightarrow> real \<Rightarrow> fit_call option" where
  "fitBounds_effect routeGeometry cameraRef_current edgePaddingTop edgePaddingRight edgePaddingBottom edgePaddingLeft =
     (case routeGeometry of
        None \<Rightarrow> None
      | Some g \<Rightarrow>
          if \<not> cameraRef_current then None
          else (case coordinates g of
                  None \<Rightarrow> None
                | Some cs \<Rightarrow>
                    if length cs > 0
                    then (let b = route_bounds cs
                          in Some \<lparr>fit_ne = ne b, fit_sw = sw b,
                                  fit_padding = [edgePaddingTop, edgePaddingRight, edgePaddingBottom, edgePaddingLeft],
                                  fit_duration = 1000\<rparr>)
                    else None))"

section \<open>EditLocationCoordScreen\<close>

text \<open>
  The state cells of the screen: the picked centre, a [longitude, latitude] pair, and the
  panning flag.
\<close>

record screen_state =
  centerCoordinate :: "real \<times> real"
  isPanning :: bool

text \<open>
  The event object the map hands to its listeners, as far as the handlers read it:
  \<^verbatim>\<open>feature.geometry.coordinates\<close> and \<^verbatim>\<open>feature.properties?.isUserInteraction\<close>,
  each of which may be missing.
\<close>

record point_geometry =
  point_coordinates :: "(real \<times> real) option"

record map_feature =
  feature_geometry :: "point_geometry option"
  isUserInteraction :: "bool option"

text \<open>
  \<^verbatim>\<open>new Point(a, b)\<close> of the domain SDK, which is not among the sources: the value
  records the two constructor arguments in their order.
\<close>

datatype point = Point real real

text \<open>
  The state the screen opens with. \<open>getCoordinates\<close> is the function of that name from
  \<^verbatim>\<open>../utils/location\<close>, a parameter; it returns a [latitude, longitude] pair.
\<close>

definition initial_state :: "('p \<Rightarrow> real \<times> real) \<Rightarrow> 'p \<Rightarrow> screen_state" where
  "initial_state getCoordinates place =
     (let (lat, lng) = getCoordinates place
      in \<lparr>centerCoordinate = (lng, lat), isPanning = False\<rparr>)"

definition handleTouchStart :: "screen_state \<Rightarrow> screen_state" where
  "handleTouchStart s = s\<lparr>isPanning := True\<rparr>"

definition handleTouchEnd :: "screen_state \<Rightarrow> screen_state" where
  "handleTouchEnd s = s\<lparr>isPanning := False\<rparr>"

definition handleRegionChange :: "map_feature \<Rightarrow> screen_state \<Rightarrow> screen_state" where
  "handleRegionChange feature s =
     (if isUserInteraction feature = Some True then s\<lparr>isPanning := True\<rparr> else s)"

definition handleRegionChangeComplete :: "map_feature \<Rightarrow> screen_state \<Rightarrow> screen_state" where
  "handleRegionChangeComplete feature s =
     (let s1 = s\<lparr>isPanning := False\<rparr>
      in case feature_geometry feature of
           None \<Rightarrow> s1
         | Some g \<Rightarrow>
             (case point_coordinates g of
                None \<Rightarrow> s1
              | Some c \<Rightarrow> s1\<lparr>centerCoordinate := c\<rparr>))"

text \<open>
  What \<^verbatim>\<open>handleSave\<close> does to the outside, in order: setting the \<^verbatim>\<open>location\<close>
  attribute of the place, requesting \<^verbatim>\<open>place.update({ location })\<close>, passing the updated
  place to \<^verbatim>\<open>updateLocationState\<close>, redirecting, and showing an error toast.
\<close>

datatype save_effect =
  SetAttribute_location point
| Update_location point
| UpdateLocationState
| Redirect
| Toast_error

text \<open>Which of the outside calls fail during one run of \<^verbatim>\<open>handleSave\<close>.\<close>

record save_env =
  setAttribute_throws :: bool
  update_rejects :: bool
  handleRedirect_throws :: bool

text \<open>
  The second \<^verbatim>\<open>try\<close> block of \<^verbatim>\<open>handleSave\<close> with its \<^verbatim>\<open>catch\<close> clause.
\<close>

definition update_block :: "save_env \<Rightarrow> point \<Rightarrow> save_effect list" where
  "update_block env location =
     (if update_rejects env then [Update_location location, Toast_error]
      else if handleRedirect_throws env
      then [Update_location location, UpdateLocationState, Toast_error]
      else [Update_location location, UpdateLocationState, Redirect])"

text \<open>
  \<^verbatim>\<open>handleSave\<close>. For a new place the first block returns after the redirect; when
  that block throws, its \<^verbatim>\<open>catch\<close> clause shows the error and control goes on to the
  second block.
\<close>

definition handleSave :: "save_env \<Rightarrow> bool \<Rightarrow> screen_state \<Rightarrow> save_effect list" where
  "handleSave env isNew s =
     (let (lng, lat) = centerCoordinate s
      in if isNew
         then (if setAttribute_throws env
               then Toast_error # update_block env (Point lat lng)
               else if handleRedirect_throws env
               then SetAttribute_location (Point lat lng) # Toast_error # update_block env (Point lat lng)
               else [SetAttribute_location (Point lat lng), Redirect])
         else update_block env (Point lat lng))"

text \<open>The locations a run of \<^verbatim>\<open>handleSave\<close> stored or asked to be stored.\<close>

fun saved_locations :: "save_effect list \<Rightarrow> point list" where
  "saved_locations [] = []"
| "saved_locations (SetAttribute_location p # es) = p # saved_locations es"
| "saved_locations (Update_location p # es) = p # saved_locations es"
| "saved_locations (e # es) = saved_locations es"

text \<open>
  \<^verbatim>\<open>handleReset\<close> has two parts. At once it raises the panning flag and, when the camera
  is mounted, sends it to the place at zoom level 17. Its timer callback, 500 ms later,
  lowers the flag and sets the picked centre.
\<close>

definition handleReset ::
  "('p \<Rightarrow> real \<times> real) \<Rightarrow> 'p \<Rightarrow> bool \<Rightarrow> screen_state \<Rightarrow> screen_state \<times> camera_stop option" where
  "handleReset getCoordinates place cameraRef_current s =
     (let (lat, lng) = getCoordinates place
      in (s\<lparr>isPanning := True\<rparr>,
          if cameraRef_current
          then Some \<lparr>stop_centerCoordinate = (lng, lat), stop_zoomLevel = 17, animationDuration = 500\<rparr>
          else None))"

definition handleReset_timeout :: "('p \<Rightarrow> real \<times> real) \<Rightarrow> 'p \<Rightarrow> screen_state \<Rightarrow> screen_state" where
  "handleReset_timeout getCoordinates place s =
     (let (lat, lng) = getCoordinates place
      in s\<lparr>isPanning := False, centerCoordinate := (lng, lat)\<rparr>)"

text \<open>
  The events that change the state of the screen, and the state after a sequence of
  them. The place, and with it \<^verbatim>\<open>getCoordinates(place)\<close>, stays the same while the
  screen is open.
\<close>

datatype screen_event =
  TouchStart
| TouchEnd
| CameraChanged map_feature
| MapIdle map_feature
| ResetPressed bool
| ResetTimer

fun step :: "('p \<Rightarrow> real \<times> real) \<Rightarrow> 'p \<Rightarrow> screen_state \<Rightarrow> screen_event \<Rightarrow> screen_state" where
  "step getCoordinates place s TouchStart = handleTouchStart s"
| "step getCoordinates place s TouchEnd = handleTouchEnd s"
| "step getCoordinates place s (CameraChanged feature) = handleRegionChange feature s"
| "step getCoordinates place s (MapIdle feature) = handleRegionChangeComplete feature s"
| "step getCoordinates place s (ResetPressed cameraRef_current) =
     fst (handleReset getCoordinates place cameraRef_current s)"
| "step getCoordinates place s ResetTimer = handleReset_timeout getCoordinates place s"

definition run :: "('p \<Rightarrow> real \<times> real) \<Rightarrow> 'p \<Rightarrow> screen_state \<Rightarrow> screen_event list \<Rightarrow> screen_state" where
  "run getCoordinates place s events = foldl (step getCoordinates place) s events"

section \<open>Properties of TrackingMarker\<close>

subsection \<open>Rounding\<close>

lemma round_even_cases:
  obtains "round_even y = \<lfloor>y\<rfloor>" "y - of_int \<lfloor>y\<rfloor> \<le> 1 / 2"
  | "round_even y = \<lfloor>y\<rfloor> + 1" "1 / 2 \<le> y - of_int \<lfloor>y\<rfloor>"
proof (cases "y - of_int \<lfloor>y\<rfloor> < 1 / 2")
  case True
  then have "round_even y = \<lfloor>y\<rfloor>" by (simp add: round_even_def Let_def)
  with True that(1) show ?thesis by simp
next
  case False
  note nl = this
  show ?thesis
  proof (cases "y - of_int \<lfloor>y\<rfloor> > 1 / 2")
    case True
    then have "round_even y = \<lfloor>y\<rfloor> + 1" using nl by (simp add: round_even_def Let_def)
    with True that(2) show ?thesis by simp
  next
    case False
    with nl have eq: "y - of_int \<lfloor>y\<rfloor> = 1 / 2" by simp
    show ?thesis
    proof (cases "even \<lfloor>y\<rfloor>")
      case True
      then have "round_even y = \<lfloor>y\<rfloor>" using eq by (simp add: round_even_def Let_def)
      with eq that(1) show ?thesis by simp
    next
      case False
      then have "round_even y = \<lfloor>y\<rfloor> + 1" using eq by (simp add: round_even_def Let_def)
      with eq that(2) show ?thesis by simp
    qed
  qed
qed

lemma round_even_error: "\<bar>of_int (round_even y) - y\<bar> \<le> 1 / 2"
proof (cases y rule: round_even_cases)
  case 1
  have "of_int \<lfloor>y\<rfloor> \<le> y" by simp
  with 1 show ?thesis by simp
next
  case 2
  have "y < of_int \<lfloor>y\<rfloor> + 1" by linarith
  with 2 show ?thesis by simp
qed

lemma round_even_le: "y \<le> of_int n \<Longrightarrow> round_even y \<le> n"
proof (cases y rule: round_even_cases)
  case 1
  assume "y \<le> of_int n"
  then have "\<lfloor>y\<rfloor> \<le> n" by (simp add: floor_le_iff)
  with 1 show ?thesis by simp
next
  case 2
  assume le: "y \<le> of_int n"
  have "of_int \<lfloor>y\<rfloor> < y" using 2(2) by simp
  with le have "of_int \<lfloor>y\<rfloor> < (of_int n :: real)" by simp
  then have "\<lfloor>y\<rfloor> < n" by (simp only: of_int_less_iff)
  with 2 show ?thesis by simp
qed

lemma round_even_ge: "of_int n \<le> y \<Longrightarrow> n \<le> round_even y"
proof (cases y rule: round_even_cases)
  case 1
  assume "of_int n \<le> y"
  then have "n \<le> \<lfloor>y\<rfloor>" by (simp add: le_floor_iff)
  with 1 show ?thesis by simp
next
  case 2
  assume "of_int n \<le> y"
  then have "n \<le> \<lfloor>y\<rfloor>" by (simp add: le_floor_iff)
  with 2 show ?thesis by simp
qed


lemma expo_bounds:
  assumes "x \<noteq> 0"
  shows "2 powi expo x \<le> \<bar>x\<bar> \<and> \<bar>x\<bar> < 2 powi (expo x + 1)"
proof (cases "1 \<le> \<bar>x\<bar>")
  case True
  define n where "n = nat \<lfloor>\<bar>x\<bar>\<rfloor>"
  have n: "0 < n" using True by (simp add: n_def)
  define c where "c = floorlog 2 n"
  have b: "2 ^ (c - 1) \<le> n" "n < 2 ^ c"
    using floorlog_bounds [of n 2] n by (simp_all add: c_def)
  have c: "0 < c" using b(2) n by (cases c) simp_all
  have e: "expo x = int c - 1" using True by (simp add: expo_def c_def n_def)
  have n1: "real n \<le> \<bar>x\<bar>" by (simp add: n_def)
  have n2: "\<bar>x\<bar> < real n + 1" unfolding n_def by (simp; linarith)
  have "real (2 ^ (c - 1)) \<le> real n" using b(1) by (simp only: of_nat_le_iff)
  moreover have "real (2 ^ (c - 1)) = 2 ^ (c - 1)" by simp
  ultimately have p1: "(2::real) ^ (c - 1) \<le> real n" by linarith
  have "Suc n \<le> 2 ^ c" using b(2) by simp
  then have "real (Suc n) \<le> real (2 ^ c)" by (simp only: of_nat_le_iff)
  moreover have "real (2 ^ c) = 2 ^ c" by simp
  moreover have "real (Suc n) = real n + 1" by simp
  ultimately have p2: "real n + 1 \<le> 2 ^ c" by linarith
  have q1: "(2::real) powi (int c - 1) = 2 ^ (c - 1)"
    using c by (simp add: power_int_def nat_diff_distrib)
  have q2: "(2::real) powi (int c - 1 + 1) = 2 ^ c" by (simp add: power_int_def power_one_over)
  show ?thesis unfolding e q1 q2 using n1 n2 p1 p2 by linarith
next
  case False
  define y where "y = 1 / \<bar>x\<bar>"
  have y: "1 < y" using False assms by (simp add: y_def)
  define N where "N = nat \<lceil>y\<rceil>"
  have N: "2 \<le> N" using y unfolding N_def by linarith
  define c where "c = floorlog 2 (N - 1)"
  have b: "2 ^ (c - 1) \<le> N - 1" "N - 1 < 2 ^ c"
    using floorlog_bounds [of "N - 1" 2] N by (simp_all add: c_def)
  have c: "0 < c" using b(2) N by (cases c) simp_all
  have e: "expo x = - int c" using False by (simp add: expo_def c_def N_def y_def)
  have yN: "y \<le> real N" unfolding N_def using y by linarith
  have "N \<le> 2 ^ c" using b(2) N by simp
  then have "real N \<le> real (2 ^ c)" by (simp only: of_nat_le_iff)
  moreover have "real (2 ^ c) = 2 ^ c" by simp
  ultimately have up: "y \<le> 2 ^ c" using yN by linarith
  have Ny: "real (N - 1) < y" unfolding N_def using y by linarith
  have "real (2 ^ (c - 1)) \<le> real (N - 1)" using b(1) by (simp only: of_nat_le_iff)
  moreover have "real (2 ^ (c - 1)) = 2 ^ (c - 1)" by simp
  ultimately have lo: "2 ^ (c - 1) < y" using Ny by linarith
  have x: "\<bar>x\<bar> = 1 / y" using assms by (simp add: y_def)
  have r1: "1 / 2 ^ c \<le> 1 / y" using up y by (simp add: frac_le)
  have r2: "1 / y < 1 / 2 ^ (c - 1)" using lo y by (simp add: frac_less2)
  have q1: "(2::real) powi (- int c) = 1 / 2 ^ c" by (simp add: power_int_def field_simps)
  have q2: "(2::real) powi (- int c + 1) = 1 / 2 ^ (c - 1)"
    using c by (cases c) (simp_all add: power_int_def field_simps nat_diff_distrib)
  show ?thesis unfolding e x q1 q2 using r1 r2 by simp
qed


lemma expo_le:
  assumes "x \<noteq> 0" "\<bar>x\<bar> < 2 powi (k + 1)"
  shows "expo x \<le> k"
proof (rule ccontr)
  assume "\<not> expo x \<le> k"
  then have "k + 1 \<le> expo x" by simp
  then have "(2::real) powi (k + 1) \<le> 2 powi expo x"
    by (rule power_int_increasing) simp
  also have "\<dots> \<le> \<bar>x\<bar>" using expo_bounds [OF assms(1)] by simp
  finally show False using assms(2) by simp
qed

lemma expo_ge:
  assumes "x \<noteq> 0" "2 powi k \<le> \<bar>x\<bar>"
  shows "k \<le> expo x"
proof (rule ccontr)
  assume "\<not> k \<le> expo x"
  then have "expo x + 1 \<le> k" by simp
  then have "(2::real) powi (expo x + 1) \<le> 2 powi k"
    by (rule power_int_increasing) simp
  moreover have "\<bar>x\<bar> < 2 powi (expo x + 1)" using expo_bounds [OF assms(1)] by simp
  ultimately show False using assms(2) by simp
qed

lemma quantum_eq:
  assumes "x \<noteq> 0" "2 powi k \<le> \<bar>x\<bar>" "\<bar>x\<bar> < 2 powi (k + 1)"
  shows "quantum x = max (k - 52) (- 1074)"
  using expo_le [OF assms(1,3)] expo_ge [OF assms(1,2)] by (simp add: quantum_def)

lemma quantum_le:
  assumes "x \<noteq> 0" "\<bar>x\<bar> < 2 powi (k + 1)" "- 1022 \<le> k"
  shows "quantum x \<le> k - 52"
  using expo_le [OF assms(1,2)] assms(3) by (simp add: quantum_def)

lemma fl_error: "\<bar>fl x - x\<bar> \<le> 2 powi quantum x / 2"
proof (cases "x = 0")
  case True
  then show ?thesis by (simp add: fl_def)
next
  case False
  define p :: real where "p = 2 powi quantum x"
  have p: "0 < p" by (simp add: p_def)
  have "fl x - x = (of_int (round_even (x / p)) - x / p) * p"
    using False p by (simp add: fl_def p_def algebra_simps)
  then have "\<bar>fl x - x\<bar> = \<bar>of_int (round_even (x / p)) - x / p\<bar> * p"
    using p by (simp add: abs_mult)
  also have "\<dots> \<le> 1 / 2 * p"
    using round_even_error [of "x / p"] p by (intro mult_right_mono) simp_all
  finally show ?thesis by (simp add: p_def)
qed

lemma of_int_quantum:
  assumes "q \<le> 0"
  shows "of_int (m * 2 ^ nat (- q)) * (2::real) powi q = of_int m"
proof -
  have "(2::real) powi q = inverse (2 ^ nat (- q))"
    using assms by (cases "q = 0") (simp_all add: power_int_def power_one_over inverse_eq_divide)
  then show ?thesis by simp
qed

lemma fl_le_int:
  assumes "x \<le> of_int m" "quantum x \<le> 0"
  shows "fl x \<le> of_int m"
proof (cases "x = 0")
  case True
  then show ?thesis using assms(1) by (simp add: fl_def)
next
  case False
  define p :: real where "p = 2 powi quantum x"
  define n where "n = m * 2 ^ nat (- quantum x)"
  have p: "0 < p" by (simp add: p_def)
  have m: "of_int n * p = of_int m"
    unfolding n_def p_def by (rule of_int_quantum [OF assms(2)])
  have "x / p \<le> of_int n" using assms(1) p m by (simp add: field_simps)
  then have "round_even (x / p) \<le> n" by (rule round_even_le)
  then have "(of_int (round_even (x / p)) :: real) \<le> of_int n" by (simp only: of_int_le_iff)
  then have r: "of_int (round_even (x / p)) * p \<le> of_int n * p"
    using p by (intro mult_right_mono) simp_all
  have "fl x = of_int (round_even (x / p)) * p"
    using False by (simp add: fl_def p_def)
  with r m show ?thesis by linarith
qed

lemma fl_ge_int:
  assumes "of_int m \<le> x" "quantum x \<le> 0"
  shows "of_int m \<le> fl x"
proof (cases "x = 0")
  case True
  then show ?thesis using assms(1) by (simp add: fl_def)
next
  case False
  define p :: real where "p = 2 powi quantum x"
  define n where "n = m * 2 ^ nat (- quantum x)"
  have p: "0 < p" by (simp add: p_def)
  have m: "of_int n * p = of_int m"
    unfolding n_def p_def by (rule of_int_quantum [OF assms(2)])
  have "of_int n \<le> x / p" using assms(1) p m by (simp add: field_simps)
  then have "n \<le> round_even (x / p)" by (rule round_even_ge)
  then have "(of_int n :: real) \<le> of_int (round_even (x / p))" by (simp only: of_int_le_iff)
  then have r: "of_int n * p \<le> of_int (round_even (x / p)) * p"
    using p by (intro mult_right_mono) simp_all
  have "fl x = of_int (round_even (x / p)) * p"
    using False by (simp add: fl_def p_def)
  with r m show ?thesis by linarith
qed

lemma fl_int: "quantum (of_int m) \<le> 0 \<Longrightarrow> fl (of_int m) = of_int m"
  using fl_le_int [of "of_int m" m] fl_ge_int [of m "of_int m"] by simp


lemma fl_zero: "fl 0 = 0"
  by (simp add: fl_def)

lemma fl_error_bound:
  assumes "\<bar>x\<bar> < 2 powi (k + 1)" "- 1022 \<le> k"
  shows "\<bar>fl x - x\<bar> \<le> 2 powi (k - 53)"
proof (cases "x = 0")
  case True
  then show ?thesis by (simp add: fl_zero)
next
  case False
  have "quantum x \<le> k - 52" using False assms by (rule quantum_le)
  then have "quantum x - 1 \<le> k - 53" by simp
  then have "(2::real) powi (quantum x - 1) \<le> 2 powi (k - 53)"
    by (rule power_int_increasing) simp
  moreover have "(2::real) powi (quantum x - 1) = 2 powi quantum x / 2"
    by (simp add: power_int_diff)
  ultimately show ?thesis using fl_error [of x] by linarith
qed

lemma quantum_small:
  assumes "\<bar>x\<bar> < 1024"
  shows "x = 0 \<or> quantum x \<le> 0"
proof (cases "x = 0")
  case True
  then show ?thesis by simp
next
  case False
  have "\<bar>x\<bar> < 2 powi (9 + 1)" using assms by (simp add: power_int_def power_one_over)
  with False have "quantum x \<le> 9 - 52" by (rule quantum_le) simp
  then show ?thesis by simp
qed

lemma fl_le_small: "x \<le> of_int m \<Longrightarrow> \<bar>x\<bar> < 1024 \<Longrightarrow> fl x \<le> of_int m"
  using quantum_small [of x] fl_le_int [of x m] by (auto simp add: fl_zero)

lemma fl_ge_small: "of_int m \<le> x \<Longrightarrow> \<bar>x\<bar> < 1024 \<Longrightarrow> of_int m \<le> fl x"
  using quantum_small [of x] fl_ge_int [of m x] by (auto simp add: fl_zero)

lemma fl_360: "fl 360 = 360" "fl (- 360) = - 360"
proof -
  have "fl (of_int 360) \<le> of_int 360" "of_int 360 \<le> fl (of_int 360)"
    by (rule fl_le_small, simp, simp) (rule fl_ge_small, simp, simp)
  then show "fl 360 = 360" by simp
  have "fl (of_int (- 360)) \<le> of_int (- 360)" "of_int (- 360) \<le> fl (of_int (- 360))"
    by (rule fl_le_small, simp, simp) (rule fl_ge_small, simp, simp)
  then show "fl (- 360) = - 360" by simp
qed

lemma js_rem_360:
  assumes "- 180 \<le> a" "a \<le> 540"
  shows "js_rem a 360 = (if 360 \<le> a then a - 360 else a)"
proof -
  have "trunc (a / 360) = (if 360 \<le> a then 1 else 0)"
  proof (cases "0 \<le> a")
    case True
    show ?thesis
    proof (cases "360 \<le> a")
      case True
      then have "\<lfloor>a / 360\<rfloor> = 1" using assms(2) by (simp add: floor_eq_iff)
      with True \<open>0 \<le> a\<close> show ?thesis by (simp add: trunc_def)
    next
      case False
      then have "\<lfloor>a / 360\<rfloor> = 0" using True by (simp add: floor_eq_iff)
      with False True show ?thesis by (simp add: trunc_def)
    qed
  next
    case False
    then have "\<lfloor>- (a / 360)\<rfloor> = 0" using assms(1) by (simp add: floor_eq_iff)
    with False show ?thesis by (simp add: trunc_def)
  qed
  then show ?thesis by (simp add: js_rem_def)
qed

lemma abs_chain:
  fixes a b c t :: real
  shows "\<bar>a - b\<bar> \<le> e1 \<Longrightarrow> \<bar>c - (a - t)\<bar> \<le> e2 \<Longrightarrow> \<bar>c - b - t * of_int (- 1)\<bar> \<le> e1 + e2"
    and "\<bar>a - b\<bar> \<le> e1 \<Longrightarrow> \<bar>c - (a + t)\<bar> \<le> e2 \<Longrightarrow> \<bar>c - b - t * of_int 1\<bar> \<le> e1 + e2"
    and "\<bar>a - b\<bar> \<le> e1 \<Longrightarrow> 0 \<le> e2 \<Longrightarrow> \<bar>a - b - t * of_int 0\<bar> \<le> e1 + e2"
  by simp_all

text \<open>The delta after the wrap step: its range and its distance from the exact one.\<close>

lemma rotate_delta_rounded:
  assumes "0 \<le> r" "r < 360" "0 \<le> h" "h < 360"
  shows "\<bar>rotate_delta r h\<bar> \<le> 180
       \<and> (\<exists>j::int. \<bar>rotate_delta r h - (h - r) - 360 * of_int j\<bar> \<le> 2 powi (- 45) + 2 powi (- 46))"
proof -
  define d where "d = fl (h - r)"
  have range: "\<bar>h - r\<bar> < 360" using assms by simp
  have e0: "\<bar>d - (h - r)\<bar> \<le> 2 powi (- 45)"
  proof -
    have "\<bar>h - r\<bar> < 2 powi (8 + 1)" using range by (simp add: power_int_def power_one_over)
    then have "\<bar>fl (h - r) - (h - r)\<bar> \<le> 2 powi (8 - 53)" by (rule fl_error_bound) simp
    then show ?thesis by (simp add: d_def)
  qed
  have dle: "d \<le> 360"
    using fl_le_small [of "h - r" 360] range by (simp add: d_def)
  have dge: "- 360 \<le> d"
    using fl_ge_small [of "- 360" "h - r"] range by (simp add: d_def)
  have pos: "0 \<le> (2::real) powi (- 46)" by simp
  consider "180 < d" | "d < - 180" | "- 180 \<le> d \<and> d \<le> 180" by linarith
  then show ?thesis
  proof cases
    case 1
    have delta: "rotate_delta r h = fl (d - 360)"
      using 1 by (simp add: rotate_delta_def Let_def Math_abs_def Math_sign_def d_def [symmetric] fl_360)
    have x: "- 180 \<le> d - 360" "d - 360 \<le> 0" using 1 dle by simp_all
    then have small: "\<bar>d - 360\<bar> < 1024" by simp
    have u: "fl (d - 360) \<le> 0" using fl_le_small [of "d - 360" 0] x small by simp
    have l: "- 180 \<le> fl (d - 360)" using fl_ge_small [of "- 180" "d - 360"] x small by simp
    have "\<bar>d - 360\<bar> < 2 powi (7 + 1)" using x by (simp add: power_int_def power_one_over)
    then have "\<bar>fl (d - 360) - (d - 360)\<bar> \<le> 2 powi (7 - 53)" by (rule fl_error_bound) simp
    then have e1: "\<bar>fl (d - 360) - (d - 360)\<bar> \<le> 2 powi (- 46)" by simp
    have "\<bar>rotate_delta r h - (h - r) - 360 * of_int (- 1)\<bar> \<le> 2 powi (- 45) + 2 powi (- 46)"
      unfolding delta using e0 e1 by (rule abs_chain(1))
    then have "\<exists>j::int. \<bar>rotate_delta r h - (h - r) - 360 * of_int j\<bar> \<le> 2 powi (- 45) + 2 powi (- 46)"
      by blast
    moreover have "\<bar>rotate_delta r h\<bar> \<le> 180" unfolding delta using u l by linarith
    ultimately show ?thesis by blast
  next
    case 2
    have delta: "rotate_delta r h = fl (d + 360)"
      using 2 by (simp add: rotate_delta_def Let_def Math_abs_def Math_sign_def d_def [symmetric] fl_360)
    have x: "0 \<le> d + 360" "d + 360 \<le> 180" using 2 dge by simp_all
    then have small: "\<bar>d + 360\<bar> < 1024" by simp
    have u: "fl (d + 360) \<le> 180" using fl_le_small [of "d + 360" 180] x small by simp
    have l: "0 \<le> fl (d + 360)" using fl_ge_small [of 0 "d + 360"] x small by simp
    have "\<bar>d + 360\<bar> < 2 powi (7 + 1)" using x by (simp add: power_int_def power_one_over)
    then have "\<bar>fl (d + 360) - (d + 360)\<bar> \<le> 2 powi (7 - 53)" by (rule fl_error_bound) simp
    then have e1: "\<bar>fl (d + 360) - (d + 360)\<bar> \<le> 2 powi (- 46)" by simp
    have "\<bar>rotate_delta r h - (h - r) - 360 * of_int 1\<bar> \<le> 2 powi (- 45) + 2 powi (- 46)"
      unfolding delta using e0 e1 by (rule abs_chain(2))
    then have "\<exists>j::int. \<bar>rotate_delta r h - (h - r) - 360 * of_int j\<bar> \<le> 2 powi (- 45) + 2 powi (- 46)"
      by blast
    moreover have "\<bar>rotate_delta r h\<bar> \<le> 180" unfolding delta using u l by linarith
    ultimately show ?thesis by blast
  next
    case 3
    have delta: "rotate_delta r h = d"
      using 3 by (simp add: rotate_delta_def Let_def Math_abs_def d_def [symmetric])
    have "\<bar>rotate_delta r h - (h - r) - 360 * of_int 0\<bar> \<le> 2 powi (- 45) + 2 powi (- 46)"
      unfolding delta using e0 pos by (rule abs_chain(3))
    then have "\<exists>j::int. \<bar>rotate_delta r h - (h - r) - 360 * of_int j\<bar> \<le> 2 powi (- 45) + 2 powi (- 46)"
      by blast
    moreover have "\<bar>rotate_delta r h\<bar> \<le> 180" unfolding delta using 3 by linarith
    ultimately show ?thesis by blast
  qed
qed

subsection \<open>The rotation\<close>

lemma fl_mul_sign: "fl (360 * Math_sign x) = 360 * Math_sign x"
  by (simp add: Math_sign_def fl_360 fl_zero)

lemma fl_of_int: "\<bar>real_of_int m\<bar> < 1024 \<Longrightarrow> fl (of_int m) = of_int m"
  using fl_le_small [of "of_int m" m] fl_ge_small [of m "of_int m"] by simp

lemma round_even_eqI:
  assumes "\<bar>y - of_int n\<bar> < 1 / 2"
  shows "round_even y = n"
proof -
  have "\<bar>real_of_int (round_even y) - of_int n\<bar> < 1"
    using round_even_error [of y] assms by linarith
  then have "\<bar>real_of_int (round_even y - n)\<bar> < 1" by simp
  then have "\<bar>round_even y - n\<bar> < 1" by (metis of_int_abs of_int_less_iff of_int_1)
  then show ?thesis by simp
qed

lemma fl_eqI:
  assumes "x \<noteq> 0" "2 powi k \<le> \<bar>x\<bar>" "\<bar>x\<bar> < 2 powi (k + 1)" "- 1022 \<le> k"
    and "\<bar>x / 2 powi (k - 52) - of_int n\<bar> < 1 / 2"
  shows "fl x = of_int n * 2 powi (k - 52)"
proof -
  have "quantum x = k - 52"
    using quantum_eq [OF assms(1-3)] assms(4) by simp
  then show ?thesis
    using assms(1) round_even_eqI [OF assms(5)] by (simp add: fl_def)
qed

text \<open>
  C1. For a current rotation \<open>r\<close> and a target heading \<open>h\<close>, both in [0, 360), the delta
  of \<open>rotate\<close> after the wrap step has absolute value at most 180: the rounded difference
  is kept when its absolute value is at most 180, and has 360 times its sign subtracted
  otherwise. The rotation the animation runs to is \<open>(r + delta) % 360\<close>, which is the
  rounded sum, less 360 when that sum reaches 360. It is congruent to \<open>h\<close> modulo 360 up
  to the rounding of the arithmetic: its distance from some \<open>h + 360 k\<close> is at most
  \<open>2^-43\<close>.
\<close>

theorem rotate_wraps_and_nears_heading:
  assumes "0 \<le> r" "r < 360" "0 \<le> h" "h < 360"
  shows "\<bar>rotate_delta r h\<bar> \<le> 180
       \<and> rotate_delta r h =
           (if \<bar>fl (h - r)\<bar> > 180 then fl (fl (h - r) - 360 * Math_sign (fl (h - r))) else fl (h - r))
       \<and> toValue (rotate_marker h d rd (s\<lparr>rotation_value := r\<rparr>)) =
           (if 360 \<le> fl (r + rotate_delta r h) then fl (r + rotate_delta r h) - 360
            else fl (r + rotate_delta r h))
       \<and> (\<exists>k::int. \<bar>toValue (rotate_marker h d rd (s\<lparr>rotation_value := r\<rparr>)) - h - 360 * of_int k\<bar>
             \<le> 2 powi (- 43))"
proof -
  define delta where "delta = rotate_delta r h"
  define total where "total = fl (r + delta)"
  from rotate_delta_rounded [OF assms]
  obtain j :: int where bound: "\<bar>delta\<bar> \<le> 180"
    and j: "\<bar>delta - (h - r) - 360 * of_int j\<bar> \<le> 2 powi (- 45) + 2 powi (- 46)"
    unfolding delta_def by blast
  have wrap: "rotate_delta r h =
      (if \<bar>fl (h - r)\<bar> > 180 then fl (fl (h - r) - 360 * Math_sign (fl (h - r))) else fl (h - r))"
    by (simp add: rotate_delta_def Let_def Math_abs_def abs_if fl_mul_sign)
  have x: "- 180 \<le> r + delta" "r + delta \<le> 540" using bound assms by linarith+
  then have small: "\<bar>r + delta\<bar> < 1024" by linarith
  have tl: "- 180 \<le> total"
    unfolding total_def using fl_ge_small [of "- 180" "r + delta"] x(1) small by simp
  have tu: "total \<le> 540"
    unfolding total_def using fl_le_small [of "r + delta" 540] x(2) small by simp
  have "\<bar>r + delta\<bar> < 2 powi (9 + 1)" using small by (simp add: power_int_def power_one_over)
  then have "\<bar>fl (r + delta) - (r + delta)\<bar> \<le> 2 powi (9 - 53)" by (rule fl_error_bound) simp
  then have e2: "\<bar>total - (r + delta)\<bar> \<le> 2 powi (- 44)" by (simp add: total_def)
  have "toValue (rotate_marker h d rd (s\<lparr>rotation_value := r\<rparr>)) = js_rem total 360"
    by (simp add: rotate_marker_def Let_def total_def delta_def)
  also have "\<dots> = (if 360 \<le> total then total - 360 else total)"
    using tl tu by (rule js_rem_360)
  finally have target: "toValue (rotate_marker h d rd (s\<lparr>rotation_value := r\<rparr>)) =
      (if 360 \<le> total then total - 360 else total)" .
  define t :: int where "t = (if 360 \<le> total then 1 else 0)"
  have tv: "toValue (rotate_marker h d rd (s\<lparr>rotation_value := r\<rparr>)) = total - 360 * of_int t"
    unfolding target t_def by simp
  have sum_pow: "(2::real) powi (- 45) + 2 powi (- 46) + 2 powi (- 44) \<le> 2 powi (- 43)"
    by (simp add: power_int_def power_one_over)
  have "total - 360 * of_int t - h - 360 * of_int (j - t)
      = (total - (r + delta)) + (delta - (h - r) - 360 * of_int j)"
    by (simp add: algebra_simps)
  then have "\<bar>total - 360 * of_int t - h - 360 * of_int (j - t)\<bar>
      \<le> \<bar>total - (r + delta)\<bar> + \<bar>delta - (h - r) - 360 * of_int j\<bar>"
    by (simp only: abs_triangle_ineq)
  with e2 j sum_pow
  have "\<bar>toValue (rotate_marker h d rd (s\<lparr>rotation_value := r\<rparr>)) - h - 360 * of_int (j - t)\<bar>
      \<le> 2 powi (- 43)"
    unfolding tv by linarith
  then have near: "\<exists>k::int. \<bar>toValue (rotate_marker h d rd (s\<lparr>rotation_value := r\<rparr>)) - h - 360 * of_int k\<bar>
      \<le> 2 powi (- 43)" by blast
  from bound wrap target near show ?thesis
    unfolding delta_def total_def by blast
qed

theorem rotate_wraps_and_nears_heading_witness:
  "rotate_delta 300 10 = 70
   \<and> toValue (rotate_marker 10 None 500
        \<lparr>currentCoordinate = \<lparr>latitude = 0, longitude = 0\<rparr>, rotation_value = 300,
         rotationDeg = 300, svgLoading = False\<rparr>) = 10"
proof -
  let ?s = "\<lparr>currentCoordinate = \<lparr>latitude = 0, longitude = 0\<rparr>, rotation_value = 300,
         rotationDeg = 300, svgLoading = False\<rparr>"
  have h: "(0::real) \<le> 300" "(300::real) < 360" "(0::real) \<le> 10" "(10::real) < 360"
    by simp_all
  have a: "fl (- 290) = - 290" using fl_of_int [of "- 290"] by simp
  have b: "fl 70 = 70" using fl_of_int [of 70] by simp
  have c: "fl 370 = 370" using fl_of_int [of 370] by simp
  from rotate_wraps_and_nears_heading [OF h, of None 500 ?s]
  show ?thesis by (simp add: a b c Math_sign_def)
qed

text \<open>
  The congruence is not exact. The doubles nearest to 300.1 and 0.2 are a rotation and a
  heading in range, and the rotation that \<open>rotate\<close> animates to from them,
  0.19999999999998863..., differs from the heading by no multiple of 360.
\<close>

theorem rotate_congruence_counterexample:
  "fl (2639707515964621 / 8796093022208) = 2639707515964621 / 8796093022208
   \<and> fl (3602879701896397 / 18014398509481984) = 3602879701896397 / 18014398509481984
   \<and> (0::real) \<le> 2639707515964621 / 8796093022208
   \<and> (2639707515964621 / 8796093022208 :: real) < 360
   \<and> (0::real) \<le> 3602879701896397 / 18014398509481984
   \<and> (3602879701896397 / 18014398509481984 :: real) < 360
   \<and> toValue (rotate_marker (3602879701896397 / 18014398509481984) None 500
        \<lparr>currentCoordinate = \<lparr>latitude = 0, longitude = 0\<rparr>,
         rotation_value = 2639707515964621 / 8796093022208,
         rotationDeg = 0, svgLoading = False\<rparr>) = 3518437208883 / 17592186044416
   \<and> \<not> (\<exists>k::int. toValue (rotate_marker (3602879701896397 / 18014398509481984) None 500
        \<lparr>currentCoordinate = \<lparr>latitude = 0, longitude = 0\<rparr>,
         rotation_value = 2639707515964621 / 8796093022208,
         rotationDeg = 0, svgLoading = False\<rparr>) - 3602879701896397 / 18014398509481984
        = 360 * real_of_int k)"
proof -
  let ?r = "2639707515964621 / 8796093022208 :: real"
  let ?h = "3602879701896397 / 18014398509481984 :: real"
  let ?s = "\<lparr>currentCoordinate = \<lparr>latitude = 0, longitude = 0\<rparr>,
         rotation_value = ?r, rotationDeg = 0, svgLoading = False\<rparr>"
  have r: "fl ?r = ?r"
    using fl_eqI [of ?r 8 5279415031929242] by (simp add: power_int_def power_one_over)
  have h: "fl ?h = ?h"
    using fl_eqI [of ?h "- 3" 7205759403792794] by (simp add: power_int_def power_one_over)
  have d0: "fl (- (5402518112993647411 / 18014398509481984)) = - (5275896594720359 / 17592186044416)"
    using fl_eqI [of "- (5402518112993647411 / 18014398509481984)" 8 "- 5275896594720359"]
    by (simp add: power_int_def power_one_over)
  have d1: "fl (1057290381269401 / 17592186044416) = 1057290381269401 / 17592186044416"
    using fl_eqI [of "1057290381269401 / 17592186044416" 5 8458323050155208]
    by (simp add: power_int_def power_one_over)
  have total: "fl (6336705413198643 / 17592186044416) = 6336705413198643 / 17592186044416"
    using fl_eqI [of "6336705413198643 / 17592186044416" 8 6336705413198643]
    by (simp add: power_int_def power_one_over)
  have delta: "rotate_delta ?r ?h = 1057290381269401 / 17592186044416"
    by (simp add: rotate_delta_def Let_def d0 d1 Math_abs_def Math_sign_def fl_360)
  have rem: "js_rem (6336705413198643 / 17592186044416) 360 = 3518437208883 / 17592186044416"
    using js_rem_360 [of "6336705413198643 / 17592186044416"] by simp
  have v: "toValue (rotate_marker ?h None 500 ?s) = 3518437208883 / 17592186044416"
    by (simp add: rotate_marker_def Let_def delta total rem)
  have "\<not> (\<exists>k::int. (3518437208883 / 17592186044416 :: real) - ?h = 360 * real_of_int k)"
  proof
    assume "\<exists>k::int. (3518437208883 / 17592186044416 :: real) - ?h = 360 * real_of_int k"
    then obtain k :: int where k: "(3518437208883 / 17592186044416 :: real) - ?h = 360 * real_of_int k" ..
    have "\<bar>(3518437208883 / 17592186044416 :: real) - ?h\<bar> < 360" by simp
    then have "\<bar>360 * real_of_int k\<bar> < 360" by (simp only: k)
    then have "\<bar>real_of_int k\<bar> < 1" by simp
    then have "k = 0" by linarith
    with k show False by simp
  qed
  moreover have "(0::real) \<le> ?r" "?r < 360" "(0::real) \<le> ?h" "?h < 360" by simp_all
  ultimately show ?thesis using r h v by (simp only: simp_thms)
qed

text \<open>
  C6. \<open>move\<close> computes no intermediate position: it stores the new coordinate in one
  step, the stored coordinate is exactly the pair it was given, the rest of the state is
  untouched, and the duration argument (given or defaulted) has no effect on the result.
\<close>

theorem move_sets_coordinate:
  "currentCoordinate (move newLatitude newLongitude dur moveDuration s)
     = \<lparr>latitude = newLatitude, longitude = newLongitude\<rparr>
   \<and> move newLatitude newLongitude dur moveDuration s
     = s\<lparr>currentCoordinate := \<lparr>latitude = newLatitude, longitude = newLongitude\<rparr>\<rparr>
   \<and> move newLatitude newLongitude dur moveDuration s
     = move newLatitude newLongitude dur' moveDuration' s"
  by (simp add: move_def Let_def)

section \<open>Properties of PlaceMapView and LiveOrderRoute\<close>

text \<open>
  C2. \<open>calculateZoomLevel\<close> of \<open>PlaceMapView\<close> returns \<open>15 - zoom\<close> and that of
  \<open>LiveOrderRoute\<close> returns \<open>14 - zoom\<close>, for every \<open>zoom\<close>, and each component gives
  this value of its \<open>zoom\<close> prop (1 when the prop is left out) to its camera as the
  \<open>zoomLevel\<close> prop.
\<close>

theorem zoom_level_transforms:
  "calculateZoomLevel_PlaceMapView zoom = 15 - zoom
   \<and> calculateZoomLevel_LiveOrderRoute zoom = 14 - zoom
   \<and> zoomLevel (PlaceMapView_camera (Some zoom) place_coordinates) = calculateZoomLevel_PlaceMapView zoom
   \<and> zoomLevel (PlaceMapView_camera None place_coordinates) = calculateZoomLevel_PlaceMapView 1
   \<and> zoomLevel (LiveOrderRoute_camera (Some zoom) origin) = calculateZoomLevel_LiveOrderRoute zoom
   \<and> zoomLevel (LiveOrderRoute_camera None origin) = calculateZoomLevel_LiveOrderRoute 1"
  by (simp add: calculateZoomLevel_PlaceMapView_def calculateZoomLevel_LiveOrderRoute_def
      PlaceMapView_camera_def LiveOrderRoute_camera_def Let_def split: prod.split)

subsection \<open>The camera-fitting step\<close>

lemma foldl_max_acc_Fin: "foldl max_acc (Fin a) (map Some xs) = Fin (fold max xs a)"
  by (induction xs arbitrary: a) (simp_all add: max.commute)

lemma foldl_min_acc_Fin: "foldl min_acc (Fin a) (map Some xs) = Fin (fold min xs a)"
  by (induction xs arbitrary: a) (simp_all add: min.commute)

lemma Math_max_finite: "xs \<noteq> [] \<Longrightarrow> Math_max (map Some xs) = Fin (Max (set xs))"
proof (cases xs)
  case Nil
  assume "xs \<noteq> []"
  with Nil show ?thesis by simp
next
  case (Cons y ys)
  have "Math_max (map Some (y # ys)) = Fin (fold max ys y)"
    by (simp add: Math_max_def foldl_max_acc_Fin)
  also have "fold max ys y = Max (set (y # ys))"
    by (rule Max.set_eq_fold [symmetric])
  finally show ?thesis using Cons by simp
qed

lemma Math_min_finite: "xs \<noteq> [] \<Longrightarrow> Math_min (map Some xs) = Fin (Min (set xs))"
proof (cases xs)
  case Nil
  assume "xs \<noteq> []"
  with Nil show ?thesis by simp
next
  case (Cons y ys)
  have "Math_min (map Some (y # ys)) = Fin (fold min ys y)"
    by (simp add: Math_min_def foldl_min_acc_Fin)
  also have "fold min ys y = Min (set (y # ys))"
    by (rule Min.set_eq_fold [symmetric])
  finally show ?thesis using Cons by simp
qed

lemma at_index_map:
  "\<forall>c\<in>set cs. i < length c \<Longrightarrow> map (\<lambda>c. at_index c i) cs = map Some (map (\<lambda>c. c ! i) cs)"
  by (simp add: at_index_def)

lemma Math_max_column:
  assumes "cs \<noteq> []" "\<forall>c\<in>set cs. i < length c"
  shows "Math_max (map (\<lambda>c. at_index c i) cs) = Fin (Max ((\<lambda>c. c ! i) ` set cs))"
proof -
  have "map (\<lambda>c. c ! i) cs \<noteq> []"
    using assms(1) by simp
  then have "Math_max (map Some (map (\<lambda>c. c ! i) cs)) = Fin (Max (set (map (\<lambda>c. c ! i) cs)))"
    by (rule Math_max_finite)
  then show ?thesis
    by (simp only: at_index_map [OF assms(2)] set_map)
qed

lemma Math_min_column:
  assumes "cs \<noteq> []" "\<forall>c\<in>set cs. i < length c"
  shows "Math_min (map (\<lambda>c. at_index c i) cs) = Fin (Min ((\<lambda>c. c ! i) ` set cs))"
proof -
  have "map (\<lambda>c. c ! i) cs \<noteq> []"
    using assms(1) by simp
  then have "Math_min (map Some (map (\<lambda>c. c ! i) cs)) = Fin (Min (set (map (\<lambda>c. c ! i) cs)))"
    by (rule Math_min_finite)
  then show ?thesis
    by (simp only: at_index_map [OF assms(2)] set_map)
qed

lemma route_bounds_finite:
  assumes "cs \<noteq> []" "\<forall>c\<in>set cs. 2 \<le> length c"
  shows "route_bounds cs =
     \<lparr>ne = (Fin (Max ((\<lambda>c. c ! 0) ` set cs)), Fin (Max ((\<lambda>c. c ! 1) ` set cs))),
      sw = (Fin (Min ((\<lambda>c. c ! 0) ` set cs)), Fin (Min ((\<lambda>c. c ! 1) ` set cs)))\<rparr>"
proof -
  have l0: "\<forall>c\<in>set cs. 0 < length c" and l1: "\<forall>c\<in>set cs. 1 < length c"
    using assms(2) by auto
  show ?thesis
    unfolding route_bounds_def Let_def
    by (simp only: Math_max_column [OF assms(1) l0] Math_max_column [OF assms(1) l1]
        Math_min_column [OF assms(1) l0] Math_min_column [OF assms(1) l1])
qed

text \<open>
  C3. For a non-empty list of route coordinates, each with a longitude and a latitude,
  the camera-fitting step calls \<open>fitBounds\<close> with the north-east corner [maximum of the
  longitudes, maximum of the latitudes] and the south-west corner [minimum of the
  longitudes, minimum of the latitudes]; every coordinate of the route lies in the box
  between the two corners.
\<close>

theorem fitBounds_corners:
  assumes "cs \<noteq> []" "\<forall>c\<in>set cs. 2 \<le> length c"
  shows "fitBounds_effect (Some \<lparr>coordinates = Some cs\<rparr>) True t r b l =
           Some \<lparr>fit_ne = (Fin (Max ((\<lambda>c. c ! 0) ` set cs)), Fin (Max ((\<lambda>c. c ! 1) ` set cs))),
                 fit_sw = (Fin (Min ((\<lambda>c. c ! 0) ` set cs)), Fin (Min ((\<lambda>c. c ! 1) ` set cs))),
                 fit_padding = [t, r, b, l], fit_duration = 1000\<rparr>
       \<and> (\<forall>c\<in>set cs. Min ((\<lambda>c. c ! 0) ` set cs) \<le> c ! 0 \<and> c ! 0 \<le> Max ((\<lambda>c. c ! 0) ` set cs)
                      \<and> Min ((\<lambda>c. c ! 1) ` set cs) \<le> c ! 1 \<and> c ! 1 \<le> Max ((\<lambda>c. c ! 1) ` set cs))"
proof -
  have call: "fitBounds_effect (Some \<lparr>coordinates = Some cs\<rparr>) True t r b l =
           Some \<lparr>fit_ne = (Fin (Max ((\<lambda>c. c ! 0) ` set cs)), Fin (Max ((\<lambda>c. c ! 1) ` set cs))),
                 fit_sw = (Fin (Min ((\<lambda>c. c ! 0) ` set cs)), Fin (Min ((\<lambda>c. c ! 1) ` set cs))),
                 fit_padding = [t, r, b, l], fit_duration = 1000\<rparr>"
    using assms(1) by (simp add: fitBounds_effect_def Let_def route_bounds_finite [OF assms])
  have inside: "Min ((\<lambda>c. c ! i) ` set cs) \<le> c ! i \<and> c ! i \<le> Max ((\<lambda>c. c ! i) ` set cs)"
    if "c \<in> set cs" for c :: "real list" and i :: nat
    using that by simp
  from call inside show ?thesis by blast
qed

theorem fitBounds_corners_witness:
  "fitBounds_effect (Some \<lparr>coordinates = Some [[1, 5], [3, 2], [2, 7]]\<rparr>) True 50 50 50 50 =
     Some \<lparr>fit_ne = (Fin 3, Fin 7), fit_sw = (Fin 1, Fin 2),
           fit_padding = [50, 50, 50, 50], fit_duration = 1000\<rparr>"
proof -
  let ?cs = "[[1, 5], [3, 2], [2, 7::real]]"
  have h1: "?cs \<noteq> []" by simp
  have h2: "\<forall>c\<in>set ?cs. 2 \<le> length c" by simp
  from fitBounds_corners [OF h1 h2, of 50 50 50 50]
  show ?thesis by simp
qed

subsection \<open>fetchDirections\<close>

lemma fetchDirections_result:
  "fetchDirections fetch json str token origin destination waypoints_arg =
     Inr (case fetch (fetchDirections_url str token origin destination waypoints_arg) of
            Inl e \<Rightarrow> None
          | Inr response \<Rightarrow>
              (case json response of
                 Inl e \<Rightarrow> None
               | Inr data \<Rightarrow>
                   (case routes data of
                      None \<Rightarrow> None
                    | Some [] \<Rightarrow> None
                    | Some (r # rs) \<Rightarrow> Some (geometry r))))"
  by (simp add: fetchDirections_def at_index_def Let_def split: sum.split option.split list.split)

text \<open>
  C4. \<open>fetchDirections\<close> never throws: whatever the network does, it returns a value.
  The value is the geometry of the first route exactly when the request succeeds, the
  response parses and the parsed response has a non-empty \<open>routes\<close> array, and it is
  \<open>null\<close> in every other case; in particular it is \<open>null\<close> when the request fails and
  when the parsing fails.
\<close>

theorem fetchDirections_never_throws:
  "(\<exists>v. fetchDirections fetch json str token origin destination waypoints_arg = Inr v)
   \<and> (fetchDirections fetch json str token origin destination waypoints_arg = Inr (Some g)
        \<longleftrightarrow> (\<exists>response data r rs.
               fetch (fetchDirections_url str token origin destination waypoints_arg) = Inr response
               \<and> json response = Inr data \<and> routes data = Some (r # rs) \<and> geometry r = g))
   \<and> (fetchDirections fetch json str token origin destination waypoints_arg = Inr None
        \<longleftrightarrow> \<not> (\<exists>response data r rs.
               fetch (fetchDirections_url str token origin destination waypoints_arg) = Inr response
               \<and> json response = Inr data \<and> routes data = Some (r # rs)))
   \<and> fetchDirections (\<lambda>u. Inl e) json str token origin destination waypoints_arg = Inr None
   \<and> fetchDirections (\<lambda>u. Inr response0) (\<lambda>r. Inl e) str token origin destination waypoints_arg = Inr None"
  unfolding fetchDirections_result
  by (auto split: sum.splits option.splits list.splits)

lemma join_Cons: "join (x # xs) sep = x @ concat (map (\<lambda>y. sep @ y) xs)"
  by (induction xs arbitrary: x) simp_all

text \<open>
  C5. The coordinate list of the request starts with the origin, goes on with the
  waypoints in the order of their list, and ends with the destination; each coordinate
  is written as longitude, comma, latitude, and a semicolon stands between consecutive
  coordinates. The request URL holds this list between the service's path and the query.
\<close>

theorem request_coordinates_order:
  "request_coordinates str origin destination waypoints =
     (str (longitude origin) @ '','' @ str (latitude origin))
     @ concat (map (\<lambda>wp. '';'' @ str (longitude (coordinate wp)) @ '','' @ str (latitude (coordinate wp))) waypoints)
     @ '';'' @ str (longitude destination) @ '','' @ str (latitude destination)
   \<and> fetchDirections_url str token origin destination (Some waypoints) =
     ''https://api.mapbox.com/directions/v5/mapbox/driving/''
     @ request_coordinates str origin destination waypoints
     @ ''?geometries=geojson&access_token='' @ token
   \<and> fetchDirections_url str token origin destination None =
     ''https://api.mapbox.com/directions/v5/mapbox/driving/''
     @ str (longitude origin) @ '','' @ str (latitude origin)
     @ '';'' @ str (longitude destination) @ '','' @ str (latitude destination)
     @ ''?geometries=geojson&access_token='' @ token"
  by (simp add: request_coordinates_def fetchDirections_url_def directions_url_def join_Cons comp_def)

subsection \<open>Start, end and middle waypoints\<close>

lemma first_hd: "xs \<noteq> [] \<Longrightarrow> first xs = Some (hd xs)"
  by (cases xs) (simp_all add: first_def at_index_def)

lemma last_util_last: "xs \<noteq> [] \<Longrightarrow> last_util xs = Some (last xs)"
  by (simp add: last_util_def at_index_def last_conv_nth)

text \<open>
  C8. With \<open>focusCurrentDestination\<close> false, the route starts at the first waypoint when
  the order has no pickup and the waypoint list is non-empty, and at the pickup
  otherwise; it ends at the last waypoint when the order has no dropoff, the waypoint
  list is non-empty and its last element is not its first, and at the dropoff otherwise.
\<close>

theorem start_and_end_waypoints:
  "startWaypoint pickup waypoints =
     (if pickup = None \<and> waypoints \<noteq> [] then Some (hd waypoints) else pickup)
   \<and> endWaypoint dropoff waypoints =
     (if dropoff = None \<and> waypoints \<noteq> [] \<and> last waypoints \<noteq> hd waypoints
      then Some (last waypoints) else dropoff)
   \<and> route_start False driverLocation restoreFleetbasePlace pickup waypoints =
     restoreFleetbasePlace (startWaypoint pickup waypoints)
   \<and> route_end False currentDestination restoreFleetbasePlace dropoff waypoints =
     restoreFleetbasePlace (endWaypoint dropoff waypoints)"
proof -
  have s: "startWaypoint pickup waypoints =
     (if pickup = None \<and> waypoints \<noteq> [] then Some (hd waypoints) else pickup)"
    using first_hd [of waypoints] by (simp add: startWaypoint_def first_def)
  have e: "endWaypoint dropoff waypoints =
     (if dropoff = None \<and> waypoints \<noteq> [] \<and> last waypoints \<noteq> hd waypoints
      then Some (last waypoints) else dropoff)"
  proof (cases "waypoints = []")
    case True
    then show ?thesis by (simp add: endWaypoint_def)
  next
    case False
    then show ?thesis
      by (simp add: endWaypoint_def first_hd last_util_last)
  qed
  show ?thesis
    using s e by (simp add: route_start_def route_end_def)
qed

lemma slice_middle: "slice xs 1 (- 1) = butlast (tl xs)"
proof -
  have "slice xs 1 (- 1) = take (length xs - 2) (drop 1 xs)"
  proof (cases xs)
    case Nil
    then show ?thesis by (simp add: slice_def Let_def)
  next
    case (Cons y ys)
    have "min 1 (int (length (y # ys))) = 1" by simp
    moreover have "nat (int (length (y # ys)) + - 1 - 1) = length (y # ys) - 2" by simp
    ultimately show ?thesis
      unfolding Cons slice_def Let_def by simp
  qed
  also have "\<dots> = butlast (tl xs)"
    by (simp add: butlast_conv_take drop_Suc numeral_2_eq_2)
  finally show ?thesis .
qed

lemma middle_short: "length xs \<le> 2 \<Longrightarrow> butlast (tl xs) = []"
  by (cases xs) (auto simp add: butlast_conv_take)

text \<open>
  C9. The middle waypoints are the waypoints without the first and the last one; there
  are none when \<open>focusCurrentDestination\<close> is true or the list has at most 2 elements.
  The marker size is \<open>xxs\<close> for more than 3 middle waypoints, \<open>xs\<close> for 1 to 3, and the
  \<open>markerSize\<close> prop (\<open>sm\<close> when left out) for none.
\<close>

theorem middle_waypoints_and_marker_size:
  "map waypoint (middleWaypoints focusCurrentDestination getCoordinates own_coordinate waypoints) =
     (if focusCurrentDestination \<or> length waypoints \<le> 2 then [] else butlast (tl waypoints))
   \<and> middleWaypoints False getCoordinates own_coordinate waypoints =
     map (with_coordinate getCoordinates own_coordinate) (butlast (tl waypoints))
   \<and> length (middleWaypoints False getCoordinates own_coordinate waypoints) = length waypoints - 2
   \<and> finalMarkerSize middle markerSize_prop =
     (if length middle > 3 then XXS
      else if 1 \<le> length middle then XS
      else (case markerSize_prop of None \<Rightarrow> SM | Some m \<Rightarrow> m))"
proof -
  have w: "waypoint \<circ> with_coordinate getCoordinates own_coordinate = id"
    by (simp add: fun_eq_iff with_coordinate_def)
  have a: "map waypoint (middleWaypoints focusCurrentDestination getCoordinates own_coordinate waypoints) =
     (if focusCurrentDestination \<or> length waypoints \<le> 2 then [] else butlast (tl waypoints))"
    using middle_short [of waypoints] by (simp add: middleWaypoints_def slice_middle w)
  have b: "middleWaypoints False getCoordinates own_coordinate waypoints =
     map (with_coordinate getCoordinates own_coordinate) (butlast (tl waypoints))"
    by (simp add: middleWaypoints_def slice_middle)
  have c: "length (middleWaypoints False getCoordinates own_coordinate waypoints) = length waypoints - 2"
    unfolding b by simp
  have d: "finalMarkerSize middle markerSize_prop =
     (if length middle > 3 then XXS
      else if 1 \<le> length middle then XS
      else (case markerSize_prop of None \<Rightarrow> SM | Some m \<Rightarrow> m))"
    by (cases middle) (simp_all add: finalMarkerSize_def Let_def)
  from a b c d show ?thesis by blast
qed

section \<open>Properties of EditLocationCoordScreen\<close>

lemma saved_locations_update_block: "saved_locations (update_block env p) = [p]"
  by (simp add: update_block_def)

lemma saved_locations_handleSave:
  "set (saved_locations (handleSave env isNew s)) =
     {Point (snd (centerCoordinate s)) (fst (centerCoordinate s))}"
  by (simp add: handleSave_def saved_locations_update_block split: prod.split)

text \<open>
  C7. When the map becomes idle with an event that carries geometry coordinates, a
  [longitude, latitude] pair, the picked centre becomes that pair (an event without
  geometry leaves the centre as it was). \<open>handleSave\<close> builds the location it stores
  from the picked centre as \<open>Point(lat, lng)\<close>, latitude first and longitude second: the
  location saved right after the idle event is the map centre with its two axes swapped,
  whether the place is new or is updated, and whichever of the outside calls fail.
\<close>

theorem idle_centre_is_saved_swapped:
  assumes "feature_geometry feature = Some g" "point_coordinates g = Some (lng, lat)"
  shows "centerCoordinate (handleRegionChangeComplete feature s) = (lng, lat)
       \<and> set (saved_locations (handleSave env isNew (handleRegionChangeComplete feature s))) = {Point lat lng}
       \<and> set (saved_locations (handleSave env isNew s')) =
           {Point (snd (centerCoordinate s')) (fst (centerCoordinate s'))}
       \<and> handleSave \<lparr>setAttribute_throws = False, update_rejects = u, handleRedirect_throws = False\<rparr> True
            (handleRegionChangeComplete feature s) = [SetAttribute_location (Point lat lng), Redirect]
       \<and> handleSave \<lparr>setAttribute_throws = t, update_rejects = False, handleRedirect_throws = False\<rparr> False
            (handleRegionChangeComplete feature s) = [Update_location (Point lat lng), UpdateLocationState, Redirect]
       \<and> centerCoordinate (handleRegionChangeComplete \<lparr>feature_geometry = None, isUserInteraction = i\<rparr> s)
           = centerCoordinate s"
proof -
  have m: "centerCoordinate (handleRegionChangeComplete \<lparr>feature_geometry = None, isUserInteraction = i\<rparr> s)
           = centerCoordinate s"
    by (simp add: handleRegionChangeComplete_def Let_def)
  have c: "centerCoordinate (handleRegionChangeComplete feature s) = (lng, lat)"
    using assms by (simp add: handleRegionChangeComplete_def Let_def)
  have a: "set (saved_locations (handleSave env isNew (handleRegionChangeComplete feature s))) = {Point lat lng}"
    by (simp add: saved_locations_handleSave c)
  have n: "handleSave \<lparr>setAttribute_throws = False, update_rejects = u, handleRedirect_throws = False\<rparr> True
            (handleRegionChangeComplete feature s) = [SetAttribute_location (Point lat lng), Redirect]"
    by (simp add: handleSave_def c)
  have e: "handleSave \<lparr>setAttribute_throws = t, update_rejects = False, handleRedirect_throws = False\<rparr> False
            (handleRegionChangeComplete feature s) = [Update_location (Point lat lng), UpdateLocationState, Redirect]"
    by (simp add: handleSave_def update_block_def c)
  from c a n e m saved_locations_handleSave [of env isNew s'] show ?thesis by blast
qed

theorem idle_centre_is_saved_swapped_witness:
  "centerCoordinate (handleRegionChangeComplete
      \<lparr>feature_geometry = Some \<lparr>point_coordinates = Some (- 46, - 23)\<rparr>, isUserInteraction = None\<rparr>
      \<lparr>centerCoordinate = (0, 0), isPanning = True\<rparr>) = (- 46, - 23)
   \<and> handleSave \<lparr>setAttribute_throws = False, update_rejects = False, handleRedirect_throws = False\<rparr> False
        (handleRegionChangeComplete
           \<lparr>feature_geometry = Some \<lparr>point_coordinates = Some (- 46, - 23)\<rparr>, isUserInteraction = None\<rparr>
           \<lparr>centerCoordinate = (0, 0), isPanning = True\<rparr>)
      = [Update_location (Point (- 23) (- 46)), UpdateLocationState, Redirect]"
proof -
  let ?g = "\<lparr>point_coordinates = Some (- 46, - 23)\<rparr>"
  let ?f = "\<lparr>feature_geometry = Some ?g, isUserInteraction = None\<rparr>"
  have h1: "feature_geometry ?f = Some ?g" by simp
  have h2: "point_coordinates ?g = Some (- 46, - 23)" by simp
  from idle_centre_is_saved_swapped [OF h1 h2, of "\<lparr>centerCoordinate = (0, 0), isPanning = True\<rparr>"
      _ _ _ _ False]
  show ?thesis by blast
qed

lemma run_ResetTimer:
  "centerCoordinate (run gc place s (xs @ [ResetTimer])) = (snd (gc place), fst (gc place))"
  by (simp add: run_def handleReset_timeout_def split: prod.split)

text \<open>
  C10. The screen opens with the picked centre at the place's stored coordinates, as the
  [longitude, latitude] pair made from what \<open>getCoordinates\<close> returns. The reset puts
  the picked centre back to that pair whatever the state was: after any sequence of
  map-idle updates (indeed of any events) followed by a reset and its timer, the picked
  centre is the one the screen opened with, and the camera is sent to the same pair.
\<close>

theorem reset_restores_original_centre:
  "centerCoordinate (initial_state getCoordinates place)
     = (snd (getCoordinates place), fst (getCoordinates place))
   \<and> centerCoordinate (handleReset_timeout getCoordinates place s)
     = centerCoordinate (initial_state getCoordinates place)
   \<and> centerCoordinate (run getCoordinates place (initial_state getCoordinates place)
        (map MapIdle features @ [ResetPressed cameraRef_current, ResetTimer]))
     = centerCoordinate (initial_state getCoordinates place)
   \<and> centerCoordinate (run getCoordinates place (initial_state getCoordinates place)
        (events @ ResetPressed cameraRef_current # events' @ [ResetTimer]))
     = centerCoordinate (initial_state getCoordinates place)
   \<and> snd (handleReset getCoordinates place True s)
     = Some \<lparr>stop_centerCoordinate = centerCoordinate (initial_state getCoordinates place),
             stop_zoomLevel = 17, animationDuration = 500\<rparr>"
proof -
  have i: "centerCoordinate (initial_state getCoordinates place)
     = (snd (getCoordinates place), fst (getCoordinates place))"
    by (simp add: initial_state_def split: prod.split)
  have t: "centerCoordinate (handleReset_timeout getCoordinates place s)
     = centerCoordinate (initial_state getCoordinates place)"
    by (simp add: i handleReset_timeout_def split: prod.split)
  have a: "centerCoordinate (run getCoordinates place (initial_state getCoordinates place)
        (map MapIdle features @ [ResetPressed cameraRef_current, ResetTimer]))
     = centerCoordinate (initial_state getCoordinates place)"
    using run_ResetTimer [of getCoordinates place _ "map MapIdle features @ [ResetPressed cameraRef_current]"]
    by (simp add: i)
  have b: "centerCoordinate (run getCoordinates place (initial_state getCoordinates place)
        (events @ ResetPressed cameraRef_current # events' @ [ResetTimer]))
     = centerCoordinate (initial_state getCoordinates place)"
    using run_ResetTimer [of getCoordinates place _ "events @ ResetPressed cameraRef_current # events'"]
    by (simp add: i)
  have c: "snd (handleReset getCoordinates place True s)
     = Some \<lparr>stop_centerCoordinate = centerCoordinate (initial_state getCoordinates place),
             stop_zoomLevel = 17, animationDuration = 500\<rparr>"
    by (simp add: i handleReset_def split: prod.split)
  from i t a b c show ?thesis by blast
qed

end
